theory Spec2Isabelle
  imports Main "HOL-Library.Word"
begin

unbundle bit_operations_syntax

section \<open>Strings and buffers\<close>

text \<open>
  A JavaScript string is a sequence of 16-bit code units; a Node \<open>Buffer\<close> is a sequence
  of bytes. String literals of the source are written \<open>js ''...''\<close>.
\<close>

type_synonym unit16 = "16 word"
type_synonym jsstring = "unit16 list"
type_synonym byte = "8 word"
type_synonym buffer = "byte list"

definition js :: "string \<Rightarrow> jsstring" where
  "js s = map (\<lambda>c. of_nat (of_char c)) s"

text \<open>
  \<open>!x\<close> on a value that is a string, \<open>undefined\<close> or \<open>null\<close>: true for the absent
  value and for the empty string.
\<close>

definition falsy :: "jsstring option \<Rightarrow> bool" where
  "falsy x = (case x of None \<Rightarrow> True | Some s \<Rightarrow> s = [])"

subsection \<open>Hex encoding\<close>

text \<open>
  \<open>buf.toString('hex')\<close> and the \<open>'hex'\<close> output encoding: two lower-case digits per
  byte.
\<close>

definition hex_digit :: "nat \<Rightarrow> unit16" where
  "hex_digit n = (if n < 10 then of_nat (48 + n) else of_nat (87 + n))"

fun hex_encode :: "buffer \<Rightarrow> jsstring" where
  "hex_encode [] = []"
| "hex_encode (b # bs) =
     hex_digit (unat b div 16) # hex_digit (unat b mod 16) # hex_encode bs"

text \<open>The value of a hex digit of either case, given by its character code.\<close>

definition hex_value :: "nat \<Rightarrow> nat option" where
  "hex_value n =
     (if 48 \<le> n \<and> n \<le> 57 then Some (n - 48)
      else if 97 \<le> n \<and> n \<le> 102 then Some (n - 87)
      else if 65 \<le> n \<and> n \<le> 70 then Some (n - 55)
      else None)"

text \<open>
  \<open>Buffer.from(s, 'hex')\<close> and the \<open>'hex'\<close> input encoding: characters are read
  pairwise; decoding stops at the first pair that is not two hex digits, and a trailing
  single character is dropped. Node's decoder looks a character up by its low byte
  (\<open>unhex\<close> takes a \<open>uint8_t\<close>), so a character above U+00FF is read as the character
  of its low byte: U+0131 as \<open>1\<close>.
\<close>

definition unhex :: "unit16 \<Rightarrow> nat option" where
  "unhex u = hex_value (unat u mod 256)"

fun hex_decode :: "jsstring \<Rightarrow> buffer" where
  "hex_decode (a # b # rest) =
     (case unhex a of
        None \<Rightarrow> []
      | Some x \<Rightarrow>
          (case unhex b of
             None \<Rightarrow> []
           | Some y \<Rightarrow> of_nat (16 * x + y) # hex_decode rest))"
| "hex_decode _ = []"

text \<open>A string is valid hex when it has an even number of characters, all hex digits.\<close>

definition valid_hex :: "jsstring \<Rightarrow> bool" where
  "valid_hex s = (even (length s) \<and> list_all (\<lambda>u. hex_value (unat u) \<noteq> None) s)"

subsection \<open>Splitting\<close>

text \<open>\<open>s.split(sep)\<close> for a separator of one character.\<close>

fun split :: "unit16 \<Rightarrow> jsstring \<Rightarrow> jsstring list" where
  "split sep [] = [[]]"
| "split sep (c # cs) =
     (if c = sep then [] # split sep cs
      else (case split sep cs of
              [] \<Rightarrow> [[c]]
            | p # ps \<Rightarrow> (c # p) # ps))"

definition colon :: unit16 where
  "colon = 58"

subsection \<open>UTF-8\<close>

text \<open>
  Encoding a string as UTF-8 (the \<open>'utf8'\<close> input encoding, and the default of
  \<open>hmac.update\<close>): a high surrogate followed by a low surrogate is one code point of
  four bytes; a surrogate on its own is written as U+FFFD, that is \<open>EF BF BD\<close>.
\<close>

definition is_high :: "unit16 \<Rightarrow> bool" where
  "is_high u = (55296 \<le> unat u \<and> unat u \<le> 56319)"

definition is_low :: "unit16 \<Rightarrow> bool" where
  "is_low u = (56320 \<le> unat u \<and> unat u \<le> 57343)"

definition enc1 :: "nat \<Rightarrow> buffer" where
  "enc1 n = [of_nat n]"

definition enc2 :: "nat \<Rightarrow> buffer" where
  "enc2 n = [of_nat (192 + n div 64), of_nat (128 + n mod 64)]"

definition enc3 :: "nat \<Rightarrow> buffer" where
  "enc3 n = [of_nat (224 + n div 4096), of_nat (128 + n div 64 mod 64), of_nat (128 + n mod 64)]"

definition enc4 :: "nat \<Rightarrow> buffer" where
  "enc4 n = [of_nat (240 + n div 262144), of_nat (128 + n div 4096 mod 64),
             of_nat (128 + n div 64 mod 64), of_nat (128 + n mod 64)]"

definition pair_cp :: "unit16 \<Rightarrow> unit16 \<Rightarrow> nat" where
  "pair_cp h l = 65536 + (unat h - 55296) * 1024 + (unat l - 56320)"

fun utf8_encode :: "jsstring \<Rightarrow> buffer" where
  "utf8_encode [] = []"
| "utf8_encode [u] =
     (if unat u < 128 then enc1 (unat u)
      else if unat u < 2048 then enc2 (unat u)
      else if is_high u \<or> is_low u then enc3 65533
      else enc3 (unat u))"
| "utf8_encode (u # v # rest) =
     (if unat u < 128 then enc1 (unat u) @ utf8_encode (v # rest)
      else if unat u < 2048 then enc2 (unat u) @ utf8_encode (v # rest)
      else if is_high u \<and> is_low v then enc4 (pair_cp u v) @ utf8_encode rest
      else if is_high u \<or> is_low u then enc3 65533 @ utf8_encode (v # rest)
      else enc3 (unat u) @ utf8_encode (v # rest))"

text \<open>A string is well formed when every surrogate is part of a high-low pair.\<close>

fun well_formed :: "jsstring \<Rightarrow> bool" where
  "well_formed [] = True"
| "well_formed [u] = (\<not> is_high u \<and> \<not> is_low u)"
| "well_formed (u # v # rest) =
     (if is_high u then is_low v \<and> well_formed rest
      else \<not> is_low u \<and> well_formed (v # rest))"

text \<open>
  Decoding UTF-8 (the \<open>'utf8'\<close> output encoding), with the replacement rule of the
  WHATWG decoder: a byte that cannot start or continue a sequence ends the sequence with
  one U+FFFD and is read again as a first byte; input that ends inside a sequence gives
  one U+FFFD. A code point above U+FFFF is written as a surrogate pair.
\<close>

definition replacement :: unit16 where
  "replacement = 65533"

definition emit :: "nat \<Rightarrow> jsstring" where
  "emit cp =
     (if cp < 65536 then [of_nat cp]
      else [of_nat (55296 + (cp - 65536) div 1024), of_nat (56320 + (cp - 65536) mod 1024)])"

definition in_range :: "nat \<Rightarrow> nat \<Rightarrow> byte \<Rightarrow> bool" where
  "in_range lo hi b = (lo \<le> unat b \<and> unat b \<le> hi)"

definition second_lo :: "nat \<Rightarrow> nat" where
  "second_lo lead = (if lead = 224 then 160 else if lead = 240 then 144 else 128)"

definition second_hi :: "nat \<Rightarrow> nat" where
  "second_hi lead = (if lead = 237 then 159 else if lead = 244 then 143 else 191)"

fun utf8_decode :: "buffer \<Rightarrow> jsstring" where
  "utf8_decode [] = []"
| "utf8_decode (b0 # bs) =
     (let n0 = unat b0 in
      if n0 < 128 then of_nat n0 # utf8_decode bs
      else if 194 \<le> n0 \<and> n0 \<le> 223 then
        (case bs of
           [] \<Rightarrow> [replacement]
         | b1 # r1 \<Rightarrow>
             if \<not> in_range 128 191 b1 then replacement # utf8_decode bs
             else emit ((n0 - 192) * 64 + (unat b1 - 128)) @ utf8_decode r1)
      else if 224 \<le> n0 \<and> n0 \<le> 239 then
        (case bs of
           [] \<Rightarrow> [replacement]
         | b1 # r1 \<Rightarrow>
             if \<not> in_range (second_lo n0) (second_hi n0) b1 then replacement # utf8_decode bs
             else
               (case r1 of
                  [] \<Rightarrow> [replacement]
                | b2 # r2 \<Rightarrow>
                    if \<not> in_range 128 191 b2 then replacement # utf8_decode r1
                    else emit ((n0 - 224) * 4096 + (unat b1 - 128) * 64 + (unat b2 - 128))
                           @ utf8_decode r2))
      else if 240 \<le> n0 \<and> n0 \<le> 244 then
        (case bs of
           [] \<Rightarrow> [replacement]
         | b1 # r1 \<Rightarrow>
             if \<not> in_range (second_lo n0) (second_hi n0) b1 then replacement # utf8_decode bs
             else
               (case r1 of
                  [] \<Rightarrow> [replacement]
                | b2 # r2 \<Rightarrow>
                    if \<not> in_range 128 191 b2 then replacement # utf8_decode r1
                    else
                      (case r2 of
                         [] \<Rightarrow> [replacement]
                       | b3 # r3 \<Rightarrow>
                           if \<not> in_range 128 191 b3 then replacement # utf8_decode r2
                           else emit ((n0 - 240) * 262144 + (unat b1 - 128) * 4096
                                        + (unat b2 - 128) * 64 + (unat b3 - 128))
                                  @ utf8_decode r3)))
      else replacement # utf8_decode bs)"

section \<open>Errors\<close>

text \<open>
  The error kinds of the two components. The cipher raises them as exceptions
  (\<open>Inl\<close> of a result); the verifier answers with a status code and an error body.
  \<^item> \<open>FormatError\<close>: \<open>Error('Invalid encrypted data format')\<close>;
  \<^item> \<open>AuthenticationError\<close>: the tag check of \<open>decipher.final\<close> failed, or the
    response \<open>401 Invalid signature\<close>;
  \<^item> \<open>MissingCredentialsError\<close>: the response \<open>401 Missing signature\<close>;
  \<^item> \<open>StaleRequestError\<close>: the response \<open>401 Invalid timestamp\<close>;
  \<^item> \<open>ServerConfigurationError\<close>: \<open>Error('ENCRYPTION_KEY must be 64 hex characters
    (32 bytes)')\<close>, or the response \<open>500 Server configuration error\<close>;
  \<^item> the remaining four are raised by Node's \<open>crypto\<close> module on arguments it refuses:
    a key that is not 32 bytes, an initialization vector of a length that GCM does not
    take, an authentication tag
    whose length is none of 4, 8, 12, 13, 14, 15, 16, and a hex input string of odd
    length given to \<open>update\<close>.
\<close>

datatype error =
    FormatError
  | AuthenticationError
  | MissingCredentialsError
  | StaleRequestError
  | ServerConfigurationError
  | InvalidKeyLength
  | InvalidIV
  | InvalidAuthTagLength
  | InvalidHexLength

section \<open>Process configuration\<close>

text \<open>The two variables of \<open>process.env\<close> that the components read.\<close>

record env =
  ENCRYPTION_KEY :: "jsstring option"
  DEFFATEST_WEBHOOK_SECRET :: "jsstring option"

section \<open>Secret cipher\<close>

text \<open>
  AES-256-GCM itself is Node's. It enters as two functions of key, initialization
  vector and data: \<open>keystream_xor\<close>, the counter-mode pass that turns plaintext into
  ciphertext and ciphertext into plaintext, and \<open>auth_tag\<close>, the tag computed over the
  ciphertext.
\<close>

record aes_gcm =
  keystream_xor :: "buffer \<Rightarrow> buffer \<Rightarrow> buffer \<Rightarrow> buffer"
  auth_tag :: "buffer \<Rightarrow> buffer \<Rightarrow> buffer \<Rightarrow> buffer"

definition IV_LENGTH :: nat where
  "IV_LENGTH = 16"

definition AUTH_TAG_LENGTH :: nat where
  "AUTH_TAG_LENGTH = 16"

definition getEncryptionKey :: "env \<Rightarrow> error + buffer" where
  "getEncryptionKey e =
     (case ENCRYPTION_KEY e of
        None \<Rightarrow> Inl ServerConfigurationError
      | Some key \<Rightarrow>
          if key = [] \<or> length key \<noteq> 64 then Inl ServerConfigurationError
          else Inr (hex_decode key))"

text \<open>
  \<open>crypto.createCipheriv('aes-256-gcm', key, iv)\<close> and \<open>createDecipheriv\<close> refuse an
  initialization vector that is empty or longer than 128 bytes (the limit of OpenSSL 3,
  which Node 18 and later use), and then a key that is not 32 bytes.
\<close>

definition createCipheriv :: "buffer \<Rightarrow> buffer \<Rightarrow> error + unit" where
  "createCipheriv key iv =
     (if iv = [] \<or> length iv > 128 then Inl InvalidIV
      else if length key \<noteq> 32 then Inl InvalidKeyLength
      else Inr ())"

text \<open>
  \<open>encrypt\<close>: the argument \<open>iv\<close> is what \<open>crypto.randomBytes(IV_LENGTH)\<close> returned in
  this call. The result \<open>None\<close> is JavaScript's \<open>null\<close>.
\<close>

definition encrypt :: "aes_gcm \<Rightarrow> env \<Rightarrow> buffer \<Rightarrow> jsstring option \<Rightarrow> error + jsstring option" where
  "encrypt lib e iv plaintext =
     (if falsy plaintext then Inr None
      else
        (case getEncryptionKey e of
           Inl err \<Rightarrow> Inl err
         | Inr key \<Rightarrow>
             (case createCipheriv key iv of
                Inl err \<Rightarrow> Inl err
              | Inr _ \<Rightarrow>
                  (let ciphertext = keystream_xor lib key iv (utf8_encode (the plaintext));
                       encrypted = hex_encode ciphertext;
                       authTag = auth_tag lib key iv ciphertext
                   in Inr (Some (hex_encode iv @ colon # hex_encode authTag @ colon # encrypted))))))"

text \<open>\<open>decipher.setAuthTag\<close> accepts the tag lengths that GCM allows.\<close>

definition valid_tag_length :: "nat \<Rightarrow> bool" where
  "valid_tag_length n = (n = 4 \<or> n = 8 \<or> (12 \<le> n \<and> n \<le> 16))"

text \<open>
  \<open>decipher.update(ciphertext, 'hex', 'utf8')\<close> followed by \<open>decipher.final('utf8')\<close>:
  \<open>update\<close> refuses a hex string of odd length; \<open>final\<close> compares the tag that was set
  with the computed tag, cut to the length of the tag that was set.
\<close>

definition decipher :: "aes_gcm \<Rightarrow> buffer \<Rightarrow> buffer \<Rightarrow> buffer \<Rightarrow> jsstring \<Rightarrow> error + jsstring" where
  "decipher lib key iv authTag ciphertext =
     (if odd (length ciphertext) then Inl InvalidHexLength
      else
        (let data = hex_decode ciphertext in
         if authTag \<noteq> take (length authTag) (auth_tag lib key iv data)
         then Inl AuthenticationError
         else Inr (utf8_decode (keystream_xor lib key iv data))))"

definition decrypt :: "aes_gcm \<Rightarrow> env \<Rightarrow> jsstring option \<Rightarrow> error + jsstring option" where
  "decrypt lib e encryptedData =
     (if falsy encryptedData then Inr None
      else
        (case getEncryptionKey e of
           Inl err \<Rightarrow> Inl err
         | Inr key \<Rightarrow>
             (let parts = split colon (the encryptedData) in
              if length parts \<noteq> 3 then Inl FormatError
              else
                (let iv = hex_decode (parts ! 0);
                     authTag = hex_decode (parts ! 1);
                     ciphertext = parts ! 2
                 in case createCipheriv key iv of
                      Inl err \<Rightarrow> Inl err
                    | Inr _ \<Rightarrow>
                        if \<not> valid_tag_length (length authTag) then Inl InvalidAuthTagLength
                        else
                          (case decipher lib key iv authTag ciphertext of
                             Inl err \<Rightarrow> Inl err
                           | Inr decrypted \<Rightarrow> Inr (Some decrypted))))))"

section \<open>Webhook verifier\<close>

subsection \<open>parseInt\<close>

text \<open>
  \<open>parseInt(s)\<close> with no radix: leading white space is skipped, then an optional sign,
  then \<open>0x\<close> or \<open>0X\<close> selects radix 16, then the longest run of digits of the radix is
  read and the rest of the string is ignored. With no digit the result is \<open>NaN\<close>, here
  \<open>None\<close>. The value is the exact integer; JavaScript rounds it to a double, which
  changes no comparison below as long as the clock is a millisecond count below
  \<open>2^53 - 2^20\<close>.
\<close>

definition is_white_space :: "unit16 \<Rightarrow> bool" where
  "is_white_space u =
     (let n = unat u in
      n \<in> {9, 10, 11, 12, 13, 32, 160, 5760, 8232, 8233, 8239, 8287, 12288, 65279}
      \<or> (8192 \<le> n \<and> n \<le> 8202))"

definition digit_value :: "nat \<Rightarrow> unit16 \<Rightarrow> nat option" where
  "digit_value radix u =
     (case hex_value (unat u) of
        None \<Rightarrow> None
      | Some d \<Rightarrow> if d < radix then Some d else None)"

fun digits :: "nat \<Rightarrow> jsstring \<Rightarrow> nat list" where
  "digits radix [] = []"
| "digits radix (u # us) =
     (case digit_value radix u of
        None \<Rightarrow> []
      | Some d \<Rightarrow> d # digits radix us)"

definition number_of :: "nat \<Rightarrow> nat list \<Rightarrow> nat" where
  "number_of radix ds = foldl (\<lambda>acc d. acc * radix + d) 0 ds"

definition strip_sign :: "jsstring \<Rightarrow> int \<times> jsstring" where
  "strip_sign s =
     (case s of
        [] \<Rightarrow> (1, s)
      | c # r \<Rightarrow> if c = 45 then (- 1, r) else if c = 43 then (1, r) else (1, s))"

definition strip_prefix :: "jsstring \<Rightarrow> nat \<times> jsstring" where
  "strip_prefix s =
     (case s of
        a # b # r \<Rightarrow> if a = 48 \<and> (b = 120 \<or> b = 88) then (16, r) else (10, s)
      | _ \<Rightarrow> (10, s))"

definition parseInt :: "jsstring \<Rightarrow> int option" where
  "parseInt s =
     (let (sign, s1) = strip_sign (dropWhile is_white_space s);
          (radix, s2) = strip_prefix s1;
          z = digits radix s2
      in if z = [] then None else Some (sign * int (number_of radix z)))"

subsection \<open>The middleware\<close>

text \<open>
  The request as the middleware reads it: the two headers, and \<open>req.body\<close>, the value
  that the body parser made of the request's body. \<open>HMAC-SHA256\<close> and
  \<open>JSON.stringify\<close> are the platform's and enter as functions; \<open>JSON_stringify\<close> gives
  the text that the template literal writes for the result.
\<close>

record 'b request =
  x_deffatest_signature :: "jsstring option"
  x_deffatest_timestamp :: "jsstring option"
  body :: 'b

record 'b platform =
  hmac_sha256 :: "buffer \<Rightarrow> buffer \<Rightarrow> buffer"
  JSON_stringify :: "'b \<Rightarrow> jsstring"

text \<open>
  The outcome: \<open>next()\<close> is called, or the response \<open>res.status(code).json({error})\<close> is
  sent.
\<close>

datatype outcome = Next | Respond nat error

definition fiveMinutes :: int where
  "fiveMinutes = 5 * 60 * 1000"

text \<open>\<open>crypto.createHmac('sha256', secret).update(data).digest('hex')\<close>.\<close>

definition hmac_hex :: "'b platform \<Rightarrow> jsstring \<Rightarrow> jsstring \<Rightarrow> jsstring" where
  "hmac_hex lib secret data = hex_encode (hmac_sha256 lib (utf8_encode secret) (utf8_encode data))"

text \<open>The argument \<open>now\<close> is what \<open>Date.now()\<close> returned in this call.\<close>

definition verifyDeffatestWebhook :: "'b platform \<Rightarrow> env \<Rightarrow> int \<Rightarrow> 'b request \<Rightarrow> outcome" where
  "verifyDeffatestWebhook lib e now req =
     (if falsy (x_deffatest_signature req) \<or> falsy (x_deffatest_timestamp req)
      then Respond 401 MissingCredentialsError
      else
        (let signature = the (x_deffatest_signature req);
             timestamp = the (x_deffatest_timestamp req)
         in case parseInt timestamp of
              None \<Rightarrow> Respond 401 StaleRequestError
            | Some timestampMs \<Rightarrow>
                if \<bar>now - timestampMs\<bar> > fiveMinutes then Respond 401 StaleRequestError
                else if falsy (DEFFATEST_WEBHOOK_SECRET e)
                then Respond 500 ServerConfigurationError
                else
                  (let webhookSecret = the (DEFFATEST_WEBHOOK_SECRET e);
                       expectedSignature =
                         hmac_hex lib webhookSecret (timestamp @ JSON_stringify lib (body req));
                       signatureBuffer = hex_decode signature;
                       expectedBuffer = hex_decode expectedSignature
                   in if length signatureBuffer \<noteq> length expectedBuffer
                      then Respond 401 AuthenticationError
                      else if signatureBuffer \<noteq> expectedBuffer
                      then Respond 401 AuthenticationError
                      else Next)))"

section \<open>What is assumed of the platform\<close>

text \<open>
  The properties of AES-256-GCM that the theorems below name as hypotheses:
  \<^item> the tag that \<open>getAuthTag\<close> returns has 16 bytes;
  \<^item> the counter-mode pass is its own inverse under one key and initialization vector;
  \<^item> under the given key, the tag of a ciphertext changes when one byte of the
    ciphertext changes (GHASH with a hash subkey other than zero).
\<close>

definition tag_length_ok :: "aes_gcm \<Rightarrow> bool" where
  "tag_length_ok lib = (\<forall>key iv data. length (auth_tag lib key iv data) = AUTH_TAG_LENGTH)"

definition keystream_ok :: "aes_gcm \<Rightarrow> bool" where
  "keystream_ok lib =
     (\<forall>key iv data. keystream_xor lib key iv (keystream_xor lib key iv data) = data)"

definition tag_detects :: "aes_gcm \<Rightarrow> buffer \<Rightarrow> bool" where
  "tag_detects lib key =
     (\<forall>iv data i b. i < length data \<longrightarrow> b \<noteq> data ! i \<longrightarrow>
        auth_tag lib key iv (data[i := b]) \<noteq> auth_tag lib key iv data)"

section \<open>Fixtures for concrete runs\<close>

text \<open>
  A stand-in for the cipher with the three properties above (a one-byte key stream and
  a checksum for a tag; it protects nothing), a key, and two initialization vectors.
\<close>

definition sample_keystream_xor :: "buffer \<Rightarrow> buffer \<Rightarrow> buffer \<Rightarrow> buffer" where
  "sample_keystream_xor key iv data = map (\<lambda>b. b XOR (sum_list key + sum_list iv)) data"

definition sample_auth_tag :: "buffer \<Rightarrow> buffer \<Rightarrow> buffer \<Rightarrow> buffer" where
  "sample_auth_tag key iv data = replicate 16 (sum_list key + sum_list iv + sum_list data)"

definition sample_gcm :: aes_gcm where
  "sample_gcm = \<lparr>keystream_xor = sample_keystream_xor, auth_tag = sample_auth_tag\<rparr>"

definition cipher_env :: env where
  "cipher_env =
     \<lparr>ENCRYPTION_KEY =
        Some (js ''000102030405060708090a0b0c0d0e0f101112131415161718191a1b1c1d1e1f''),
      DEFFATEST_WEBHOOK_SECRET = None\<rparr>"

definition sample_key :: buffer where
  "sample_key = [0, 1, 2, 3, 4, 5, 6, 7, 8, 9, 10, 11, 12, 13, 14, 15,
                 16, 17, 18, 19, 20, 21, 22, 23, 24, 25, 26, 27, 28, 29, 30, 31]"

definition sample_iv :: buffer where
  "sample_iv = [160, 161, 162, 163, 164, 165, 166, 167, 168, 169, 170, 171, 172, 173, 174, 175]"

definition other_iv :: buffer where
  "other_iv = [176, 177, 178, 179, 180, 181, 182, 183, 184, 185, 186, 187, 188, 189, 190, 200]"

text \<open>A configuration whose key has 64 characters, none of them a hex digit.\<close>

definition non_hex_key_env :: env where
  "non_hex_key_env =
     \<lparr>ENCRYPTION_KEY = Some (replicate 64 122), DEFFATEST_WEBHOOK_SECRET = None\<rparr>"

text \<open>
  Three JSON documents with what \<open>JSON.stringify\<close> returns for them and what the body
  parser makes of some request bodies, and HMAC-SHA256 at three known answers (computed
  with a reference implementation for the key \<open>whsec\<close>; any other input gets 32 zero
  bytes).
\<close>

datatype sample_body = EmptyObject | EmptyArray | JsonNull

fun sample_stringify :: "sample_body \<Rightarrow> jsstring" where
  "sample_stringify EmptyObject = js ''{}''"
| "sample_stringify EmptyArray = js ''[]''"
| "sample_stringify JsonNull = js ''null''"

definition sample_parse :: "jsstring \<Rightarrow> sample_body option" where
  "sample_parse raw =
     (if raw = js ''{}'' \<or> raw = js ''{ }'' then Some EmptyObject
      else if raw = js ''[]'' \<or> raw = js ''[ ]'' then Some EmptyArray
      else if raw = js ''null'' then Some JsonNull
      else None)"

definition known_hmac :: "buffer \<Rightarrow> buffer \<Rightarrow> buffer" where
  "known_hmac key msg =
     (if key = utf8_encode (js ''whsec'') \<and> msg = utf8_encode (js ''1000{}'')
      then hex_decode (js ''d1e997f66f49332d1ebfca39b94dfaf55d263695680111dfa07613d599f614cc'')
      else if key = utf8_encode (js ''whsec'') \<and> msg = utf8_encode (js ''1000{ }'')
      then hex_decode (js ''fd255100305c54818b5b64240f233d8ecefac68abed62d3e4087470ec4d1ed94'')
      else if key = utf8_encode (js ''whsec'') \<and> msg = utf8_encode (js ''1000abc{}'')
      then hex_decode (js ''83eb5c24ae73f4d45bee5dda82abfefb7e7f291fbd7d0f39e8e88dbea44aa430'')
      else replicate 32 0)"

definition sample_platform :: "sample_body platform" where
  "sample_platform = \<lparr>hmac_sha256 = known_hmac, JSON_stringify = sample_stringify\<rparr>"

definition sample_env :: env where
  "sample_env = \<lparr>ENCRYPTION_KEY = None, DEFFATEST_WEBHOOK_SECRET = Some (js ''whsec'')\<rparr>"

definition unconfigured_env :: env where
  "unconfigured_env = \<lparr>ENCRYPTION_KEY = None, DEFFATEST_WEBHOOK_SECRET = None\<rparr>"

definition signed_request :: "string \<Rightarrow> string \<Rightarrow> sample_body request" where
  "signed_request sig ts =
     \<lparr>x_deffatest_signature = Some (js sig), x_deffatest_timestamp = Some (js ts),
      body = EmptyObject\<rparr>"

definition bare_request :: "sample_body request" where
  "bare_request =
     \<lparr>x_deffatest_signature = None, x_deffatest_timestamp = None, body = EmptyObject\<rparr>"

section \<open>Lemmas\<close>

subsection \<open>Hex encoding and splitting\<close>

lemma unat_of_nat16: "n < 65536 \<Longrightarrow> unat (of_nat n :: unit16) = n"
  by (simp add: unat_of_nat)

lemma unat_of_nat8: "n < 256 \<Longrightarrow> unat (of_nat n :: byte) = n"
  by (simp add: unat_of_nat)

lemma unat_byte_lt: "unat (b :: byte) < 256"
  using unsigned_less [of b, where ?'a = nat] by simp

lemma unat_unit_lt: "unat (u :: unit16) < 65536"
  using unsigned_less [of u, where ?'a = nat] by simp

lemma hi_nibble_lt: "unat (b :: byte) div 16 < 16"
  using unat_byte_lt [of b] by simp

lemma hex_digit_lt: "n < 16 \<Longrightarrow> unat (hex_digit n) = (if n < 10 then 48 + n else 87 + n)"
  unfolding hex_digit_def using unat_of_nat16 [of "48 + n"] unat_of_nat16 [of "87 + n"]
  by (simp del: of_nat_add)

lemma hex_value_hex_digit: "n < 16 \<Longrightarrow> hex_value (unat (hex_digit n)) = Some n"
  by (simp add: hex_value_def hex_digit_lt)

lemma hex_value_lt: "hex_value n = Some v \<Longrightarrow> v < 16"
  by (auto simp: hex_value_def split: if_splits)

lemma hex_value_code: "hex_value n \<noteq> None \<Longrightarrow> n < 256"
  by (auto simp: hex_value_def split: if_splits)

lemma unhex_digit: "hex_value (unat u) \<noteq> None \<Longrightarrow> unhex u = hex_value (unat u)"
  using hex_value_code [of "unat u"] by (simp add: unhex_def)

lemma unhex_digit_Some: "hex_value (unat u) = Some y \<Longrightarrow> unhex u = Some y"
  using unhex_digit [of u] by simp

lemma unhex_hex_digit: "n < 16 \<Longrightarrow> unhex (hex_digit n) = Some n"
  using unhex_digit [of "hex_digit n"] by (simp add: hex_value_hex_digit)

lemma hex_decode_encode_append: "hex_decode (hex_encode bs @ r) = bs @ hex_decode r"
  by (induction bs) (simp_all add: unhex_hex_digit hi_nibble_lt)

lemma hex_decode_encode: "hex_decode (hex_encode bs) = bs"
  using hex_decode_encode_append [of bs "[]"] by simp

lemma length_hex_encode: "length (hex_encode bs) = 2 * length bs"
  by (induction bs) simp_all

lemma hex_digit_not_colon: "n < 16 \<Longrightarrow> hex_digit n \<noteq> colon"
proof
  assume "n < 16" and "hex_digit n = colon"
  then have "unat (hex_digit n) = 58" by (simp add: colon_def)
  with \<open>n < 16\<close> show False by (simp add: hex_digit_lt split: if_splits)
qed

lemma colon_notin_hex: "colon \<notin> set (hex_encode bs)"
  by (induction bs) (simp_all add: hex_digit_not_colon [symmetric] hi_nibble_lt)

lemma valid_hex_encode: "valid_hex (hex_encode bs)"
  by (induction bs) (simp_all add: valid_hex_def hex_value_hex_digit hi_nibble_lt)

lemma split_no_sep: "sep \<notin> set a \<Longrightarrow> split sep a = [a]"
  by (induction a) auto

lemma split_append: "sep \<notin> set a \<Longrightarrow> split sep (a @ sep # r) = a # split sep r"
  by (induction a) auto

lemma length_hex_decode: "valid_hex s \<Longrightarrow> length (hex_decode s) = length s div 2"
  by (induction s rule: hex_decode.induct) (auto simp: valid_hex_def unhex_digit_Some)

lemma hex_encode_inj: "hex_encode a = hex_encode b \<Longrightarrow> a = b"
  by (metis hex_decode_encode)

lemma unhex_lt: "unhex x = Some v \<Longrightarrow> v < 16"
  unfolding unhex_def by (rule hex_value_lt)

lemma unhex_colon: "unhex colon = None"
  by (simp add: unhex_def hex_value_def colon_def)

lemma hex_value_colon: "hex_value (unat colon) = None"
  by (simp add: hex_value_def colon_def)

lemma byte_eq_hi:
  assumes "v < 16" "(of_nat (16 * v + unat b mod 16) :: byte) = b"
  shows "v = unat b div 16"
proof -
  have "unat (of_nat (16 * v + unat b mod 16) :: byte) = 16 * v + unat b mod 16"
    using assms(1) by (intro unat_of_nat8) simp
  with assms(2) have e: "16 * v + unat b mod 16 = unat b" by simp
  define q where "q = unat b div 16"
  define r where "r = unat b mod 16"
  have "16 * q + r = unat b" unfolding q_def r_def by simp
  moreover have "16 * v + r = unat b" using e unfolding q_def r_def .
  ultimately have "v = q" by simp
  then show ?thesis unfolding q_def r_def .
qed

lemma byte_eq_lo:
  assumes "v < 16" "(of_nat (16 * (unat b div 16) + v) :: byte) = b"
  shows "v = unat b mod 16"
proof -
  have "unat (of_nat (16 * (unat b div 16) + v) :: byte) = 16 * (unat b div 16) + v"
    using assms(1) hi_nibble_lt [of b] by (intro unat_of_nat8) simp
  with assms(2) have e: "16 * (unat b div 16) + v = unat b" by simp
  define q where "q = unat b div 16"
  define r where "r = unat b mod 16"
  have "16 * q + r = unat b" unfolding q_def r_def by simp
  moreover have "16 * q + v = unat b" using e unfolding q_def r_def .
  ultimately have "v = r" by simp
  then show ?thesis unfolding q_def r_def .
qed

lemma hex_decode_flip:
  assumes "i < length (hex_encode bs)" "unhex x = Some v" "unhex x \<noteq> unhex (hex_encode bs ! i)"
  shows "\<exists>b. b \<noteq> bs ! (i div 2) \<and> hex_decode ((hex_encode bs)[i := x]) = bs[i div 2 := b]"
  using assms
proof (induction bs arbitrary: i)
  case Nil
  then show ?case by simp
next
  case (Cons b bs)
  have v: "v < 16" using Cons.prems(2) by (rule unhex_lt)
  consider "i = 0" | "i = 1" | j where "i = Suc (Suc j)"
    by (cases i rule: nat.exhaust; cases "i - 1" rule: nat.exhaust) auto
  then show ?case
  proof cases
    case 1
    with Cons.prems have "v \<noteq> unat b div 16"
      by (auto simp: unhex_hex_digit hi_nibble_lt)
    then have "(of_nat (16 * v + unat b mod 16) :: byte) \<noteq> b"
      using byte_eq_hi [OF v] by blast
    with 1 Cons.prems show ?thesis
      by (simp add: unhex_hex_digit hex_decode_encode del: of_nat_add of_nat_mult)
  next
    case 2
    with Cons.prems have "v \<noteq> unat b mod 16"
      by (auto simp: unhex_hex_digit)
    then have "(of_nat (16 * (unat b div 16) + v) :: byte) \<noteq> b"
      using byte_eq_lo [OF v] by blast
    with 2 Cons.prems show ?thesis
      by (simp add: unhex_hex_digit hi_nibble_lt hex_decode_encode del: of_nat_add of_nat_mult)
  next
    case 3
    with Cons.prems have "j < length (hex_encode bs)" "unhex x \<noteq> unhex (hex_encode bs ! j)"
      by simp_all
    from Cons.IH [OF this(1) Cons.prems(2) this(2)] obtain b' where
      "b' \<noteq> bs ! (j div 2)" "hex_decode ((hex_encode bs)[j := x]) = bs[j div 2 := b']"
      by blast
    with 3 show ?thesis
      by (intro exI [of _ b']) (simp add: unhex_hex_digit hi_nibble_lt)
  qed
qed

lemma hex_decode_same:
  assumes "i < length (hex_encode bs)" "unhex x = unhex (hex_encode bs ! i)"
  shows "hex_decode ((hex_encode bs)[i := x]) = bs"
  using assms
proof (induction bs arbitrary: i)
  case Nil
  then show ?case by simp
next
  case (Cons b bs)
  consider "i = 0" | "i = 1" | j where "i = Suc (Suc j)"
    by (cases i rule: nat.exhaust; cases "i - 1" rule: nat.exhaust) auto
  then show ?case
  proof cases
    case 1
    with Cons.prems show ?thesis
      by (simp add: unhex_hex_digit hi_nibble_lt hex_decode_encode)
  next
    case 2
    with Cons.prems show ?thesis
      by (simp add: unhex_hex_digit hi_nibble_lt hex_decode_encode)
  next
    case 3
    with Cons show ?thesis
      by (simp add: unhex_hex_digit hi_nibble_lt)
  qed
qed

lemma colon_notin_update:
  assumes "unhex x \<noteq> None"
  shows "colon \<notin> set ((hex_encode bs)[i := x])"
proof -
  have "x \<noteq> colon" using assms unhex_colon by auto
  moreover have "set ((hex_encode bs)[i := x]) \<subseteq> insert x (set (hex_encode bs))"
    by (rule set_update_subset_insert)
  ultimately show ?thesis using colon_notin_hex [of bs] by auto
qed

subsection \<open>UTF-8\<close>

lemma dec1: "n < 128 \<Longrightarrow> utf8_decode (enc1 n @ r) = of_nat n # utf8_decode r"
  by (simp add: enc1_def unat_of_nat8 Let_def del: of_nat_add)

lemma comb2: "(n::nat) = 64 * a + b \<Longrightarrow> a = 64 * q + r \<Longrightarrow> n = 4096 * q + 64 * r + b"
  by simp

lemma comb3: "(n::nat) = 64 * a + b \<Longrightarrow> a = 64 * a' + r \<Longrightarrow> a' = 64 * q + r'
  \<Longrightarrow> n = 262144 * q + 4096 * r' + 64 * r + b"
  by simp

lemma split2:
  fixes n :: nat
  obtains q b where "n div 64 = q" "n mod 64 = b" "n = 64 * q + b" "b < 64"
proof -
  have "n = 64 * (n div 64) + n mod 64" by simp
  then show thesis using that [of "n div 64" "n mod 64"] by simp
qed

lemma split3:
  fixes n :: nat
  obtains q r b where "n div 4096 = q" "n div 64 mod 64 = r" "n mod 64 = b"
    "n = 4096 * q + 64 * r + b" "r < 64" "b < 64"
proof -
  have 1: "n = 64 * (n div 64) + n mod 64" by simp
  have 2: "n div 64 = 64 * (n div 64 div 64) + n div 64 mod 64" by simp
  have 3: "n div 64 div 64 = n div 4096" by (simp add: div_mult2_eq)
  have "n = 4096 * (n div 4096) + 64 * (n div 64 mod 64) + n mod 64"
    using comb2 [OF 1 2] by (simp only: 3)
  then show thesis using that [of "n div 4096" "n div 64 mod 64" "n mod 64"] by simp
qed

lemma split4:
  fixes n :: nat
  obtains q r' r b where "n div 262144 = q" "n div 4096 mod 64 = r'" "n div 64 mod 64 = r"
    "n mod 64 = b" "n = 262144 * q + 4096 * r' + 64 * r + b" "r' < 64" "r < 64" "b < 64"
proof -
  have 1: "n = 64 * (n div 64) + n mod 64" by simp
  have 2: "n div 64 = 64 * (n div 64 div 64) + n div 64 mod 64" by simp
  have 3: "n div 64 div 64 = 64 * (n div 64 div 64 div 64) + n div 64 div 64 mod 64" by simp
  have 4: "n div 64 div 64 = n div 4096" by (simp add: div_mult2_eq)
  have 5: "n div 4096 div 64 = n div 262144" by (simp add: div_mult2_eq)
  have "n = 262144 * (n div 262144) + 4096 * (n div 4096 mod 64) + 64 * (n div 64 mod 64) + n mod 64"
    using comb3 [OF 1 2 3] by (simp only: 4 5)
  then show thesis
    using that [of "n div 262144" "n div 4096 mod 64" "n div 64 mod 64" "n mod 64"] by simp
qed

lemma dec2:
  assumes "128 \<le> n" "n < 2048"
  shows "utf8_decode (enc2 n @ r) = of_nat n # utf8_decode r"
proof -
  obtain q b where s: "n div 64 = q" "n mod 64 = b" and n: "n = 64 * q + b" and b: "b < 64"
    by (rule split2)
  have q: "2 \<le> q" "q \<le> 31" using assms n b by linarith+
  have a: "unat (of_nat (192 + q) :: byte) = 192 + q"
    using q by (intro unat_of_nat8) simp
  have c: "unat (of_nat (128 + b) :: byte) = 128 + b"
    using b by (intro unat_of_nat8) simp
  have v: "q * 64 + b = n" using n by simp
  have e: "enc2 n = [of_nat (192 + q), of_nat (128 + b)]"
    unfolding enc2_def s ..
  have l: "192 + q - 192 = q" "128 + b - 128 = b" by simp_all
  have m: "emit n = [of_nat n]" using assms by (simp add: emit_def)
  show ?thesis
    unfolding e using q b
    by (simp add: a c l v m Let_def in_range_def del: of_nat_add)
qed


lemma dec3:
  assumes "2048 \<le> n" "n < 65536" "\<not> (55296 \<le> n \<and> n \<le> 57343)"
  shows "utf8_decode (enc3 n @ rest) = of_nat n # utf8_decode rest"
proof -
  obtain q r b where s: "n div 4096 = q" "n div 64 mod 64 = r" "n mod 64 = b"
    and n: "n = 4096 * q + 64 * r + b" and rb: "r < 64" "b < 64"
    by (rule split3)
  have q: "q \<le> 15" using assms n by linarith
  have a: "unat (of_nat (224 + q) :: byte) = 224 + q"
    using q by (intro unat_of_nat8) simp
  have c: "unat (of_nat (128 + r) :: byte) = 128 + r"
    using rb by (intro unat_of_nat8) simp
  have d: "unat (of_nat (128 + b) :: byte) = 128 + b"
    using rb by (intro unat_of_nat8) simp
  have lo: "second_lo (224 + q) \<le> 128 + r"
    using assms n rb by (simp add: second_lo_def)
  have hi: "128 + r \<le> second_hi (224 + q)"
    using assms n rb by (auto simp: second_hi_def)
  have v: "q * 4096 + r * 64 + b = n" using n by simp
  have e: "enc3 n = [of_nat (224 + q), of_nat (128 + r), of_nat (128 + b)]"
    unfolding enc3_def s ..
  have l: "224 + q - 224 = q" "128 + r - 128 = r" "128 + b - 128 = b" by simp_all
  have m: "emit n = [of_nat n]" using assms by (simp add: emit_def)
  have g: "\<not> 224 + q < 128" "\<not> 224 + q \<le> 223" "224 + q \<le> 239" using q by simp_all
  have i2: "in_range 128 191 (of_nat (128 + b) :: byte)"
    using rb by (simp only: in_range_def d) simp
  have i1: "in_range (second_lo (224 + q)) (second_hi (224 + q)) (of_nat (128 + r) :: byte)"
    using lo hi by (simp add: in_range_def c del: of_nat_add)
  show ?thesis
    unfolding e using g i1 i2
    by (simp add: a c d l v m Let_def del: of_nat_add)
qed

lemma dec4:
  assumes "65536 \<le> n" "n < 1114112"
  shows "utf8_decode (enc4 n @ rest) = emit n @ utf8_decode rest"
proof -
  obtain q r' r b where s: "n div 262144 = q" "n div 4096 mod 64 = r'" "n div 64 mod 64 = r"
    "n mod 64 = b" and n: "n = 262144 * q + 4096 * r' + 64 * r + b"
    and rb: "r' < 64" "r < 64" "b < 64"
    by (rule split4)
  have q: "q \<le> 4" using assms n by linarith
  have a: "unat (of_nat (240 + q) :: byte) = 240 + q"
    using q by (intro unat_of_nat8) simp
  have c': "unat (of_nat (128 + r') :: byte) = 128 + r'"
    using rb by (intro unat_of_nat8) simp
  have c: "unat (of_nat (128 + r) :: byte) = 128 + r"
    using rb by (intro unat_of_nat8) simp
  have d: "unat (of_nat (128 + b) :: byte) = 128 + b"
    using rb by (intro unat_of_nat8) simp
  have lo: "second_lo (240 + q) \<le> 128 + r'"
    using assms n rb by (simp add: second_lo_def)
  have hi: "128 + r' \<le> second_hi (240 + q)"
    using assms n rb by (simp add: second_hi_def)
  have v: "q * 262144 + r' * 4096 + r * 64 + b = n" using n by simp
  have e: "enc4 n = [of_nat (240 + q), of_nat (128 + r'), of_nat (128 + r), of_nat (128 + b)]"
    unfolding enc4_def s ..
  have l: "240 + q - 240 = q" "128 + r' - 128 = r'" "128 + r - 128 = r" "128 + b - 128 = b"
    by simp_all
  have g: "\<not> 240 + q < 128" "\<not> 240 + q \<le> 223" "\<not> 240 + q \<le> 239" "240 + q \<le> 244"
    using q by simp_all
  have i3: "in_range 128 191 (of_nat (128 + b) :: byte)"
    using rb by (simp only: in_range_def d) simp
  have i2: "in_range 128 191 (of_nat (128 + r) :: byte)"
    using rb by (simp only: in_range_def c) simp
  have i1: "in_range (second_lo (240 + q)) (second_hi (240 + q)) (of_nat (128 + r') :: byte)"
    using lo hi by (simp add: in_range_def c' del: of_nat_add)
  show ?thesis
    unfolding e using g i1 i2 i3
    by (simp add: a c' c d l v Let_def del: of_nat_add)
qed

lemma emit_pair:
  assumes "is_high h" "is_low l"
  shows "emit (pair_cp h l) = [h, l]"
proof -
  define x where "x = unat h - 55296"
  define y where "y = unat l - 56320"
  have x: "unat h = 55296 + x" "x < 1024"
    using assms(1) unfolding is_high_def x_def by linarith+
  have y: "unat l = 56320 + y" "y < 1024"
    using assms(2) unfolding is_low_def y_def by linarith+
  have p: "pair_cp h l = 65536 + (x * 1024 + y)"
    by (simp add: pair_cp_def x_def y_def)
  have 1: "(x * 1024 + y) div 1024 = x" using y by simp
  have 2: "(x * 1024 + y) mod 1024 = y" using y by simp
  have "(of_nat (unat h) :: unit16) = h" "(of_nat (unat l) :: unit16) = l"
    by simp_all
  then have 3: "(of_nat (55296 + x) :: unit16) = h" "(of_nat (56320 + y) :: unit16) = l"
    unfolding x(1) y(1) .
  show ?thesis
    unfolding emit_def p using 1 2 3
    by (simp del: of_nat_add)
qed

lemma pair_cp_range:
  assumes "is_high h" "is_low l"
  shows "65536 \<le> pair_cp h l" "pair_cp h l < 1114112"
  using assms by (auto simp: is_high_def is_low_def pair_cp_def)

lemma enc_single:
  assumes "\<not> is_high u" "\<not> is_low u"
  shows "utf8_decode ((if unat u < 128 then enc1 (unat u)
      else if unat u < 2048 then enc2 (unat u) else enc3 (unat u)) @ r) = u # utf8_decode r"
proof -
  consider "unat u < 128" | "128 \<le> unat u" "unat u < 2048" | "2048 \<le> unat u"
    by linarith
  then show ?thesis
  proof cases
    case 1
    then show ?thesis using dec1 [of "unat u" r] by simp
  next
    case 2
    then show ?thesis using dec2 [of "unat u" r] by simp
  next
    case 3
    have "\<not> (55296 \<le> unat u \<and> unat u \<le> 57343)"
      using assms by (auto simp: is_high_def is_low_def)
    with 3 show ?thesis using dec3 [of "unat u" r] unat_unit_lt [of u] by simp
  qed
qed

lemma utf8_encode_single:
  assumes "\<not> is_high u" "\<not> is_low u"
  shows "utf8_encode (u # s) = (if unat u < 128 then enc1 (unat u)
      else if unat u < 2048 then enc2 (unat u) else enc3 (unat u)) @ utf8_encode s"
  using assms by (cases s) simp_all

lemma utf8_encode_pair:
  assumes "is_high u" "is_low v"
  shows "utf8_encode (u # v # s) = enc4 (pair_cp u v) @ utf8_encode s"
  using assms by (simp add: is_high_def)

lemma utf8_roundtrip: "well_formed s \<Longrightarrow> utf8_decode (utf8_encode s) = s"
proof (induction s rule: well_formed.induct)
  case 1
  then show ?case by simp
next
  case (2 u)
  then have n: "\<not> is_high u" "\<not> is_low u" by simp_all
  show ?case
    using utf8_encode_single [OF n, of "[]"] enc_single [OF n, of "[]"] by simp
next
  case (3 u v rest)
  show ?case
  proof (cases "is_high u")
    case True
    with 3 have lv: "is_low v" and wf: "well_formed rest" by simp_all
    have ih: "utf8_decode (utf8_encode rest) = rest"
      using 3 True wf by simp
    show ?thesis
      unfolding utf8_encode_pair [OF True lv]
      using pair_cp_range [OF True lv] dec4 [of "pair_cp u v" "utf8_encode rest"]
      by (simp add: emit_pair [OF True lv] ih)
  next
    case False
    with 3 have nl: "\<not> is_low u" and wf: "well_formed (v # rest)" by simp_all
    have ih: "utf8_decode (utf8_encode (v # rest)) = v # rest"
      using 3 False wf by simp
    show ?thesis
      unfolding utf8_encode_single [OF False nl] enc_single [OF False nl] ih ..
  qed
qed

subsection \<open>The cipher on well-formed input\<close>

lemma encrypt_value:
  assumes "getEncryptionKey e = Inr key" "length key = 32"
    and "iv \<noteq> []" "length iv \<le> 128" "s \<noteq> []"
  shows "encrypt lib e iv (Some s) =
    Inr (Some (hex_encode iv @ colon #
               hex_encode (auth_tag lib key iv (keystream_xor lib key iv (utf8_encode s))) @ colon #
               hex_encode (keystream_xor lib key iv (utf8_encode s))))"
  using assms by (simp add: encrypt_def falsy_def createCipheriv_def Let_def)

lemma split_triple:
  "split colon (hex_encode a @ colon # hex_encode b @ colon # hex_encode c) =
     [hex_encode a, hex_encode b, hex_encode c]"
  by (simp add: split_append split_no_sep colon_notin_hex)

lemma decrypt_triple:
  assumes "getEncryptionKey e = Inr key" "length key = 32"
    and "split colon d = [p0, p1, p2]"
    and "hex_decode p0 \<noteq> []" "length (hex_decode p0) \<le> 128"
    and "valid_tag_length (length (hex_decode p1))"
  shows "decrypt lib e (Some d) =
     (case decipher lib key (hex_decode p0) (hex_decode p1) p2 of
        Inl err \<Rightarrow> Inl err | Inr x \<Rightarrow> Inr (Some x))"
proof -
  have "d \<noteq> []" using assms(3) by auto
  then show ?thesis
    using assms by (simp add: decrypt_def falsy_def createCipheriv_def Let_def)
qed


text \<open>
  Characters after the hex digits of a segment are not read: whatever the cipher, a
  stored secret with such characters appended to its segments is decrypted as the
  secret itself. And an unpaired surrogate has the UTF-8 bytes of U+FFFD.
\<close>

lemma hex_decode_append_valid:
  "valid_hex p \<Longrightarrow> hex_decode (p @ g) = hex_decode p @ hex_decode g"
  by (induction p rule: hex_decode.induct) (auto simp: valid_hex_def unhex_digit_Some)

lemma valid_hex_no_colon: "valid_hex p \<Longrightarrow> colon \<notin> set p"
  using hex_value_colon by (auto simp: valid_hex_def list_all_iff)

lemma decrypt_ignores_garbage:
  assumes v: "valid_hex p0" "valid_hex p1" "valid_hex p2"
    and g: "hex_decode g0 = []" "hex_decode g1 = []" "hex_decode g2 = []" "even (length g2)"
    and c: "colon \<notin> set g0" "colon \<notin> set g1" "colon \<notin> set g2"
  shows "decrypt lib e (Some ((p0 @ g0) @ colon # (p1 @ g1) @ colon # (p2 @ g2)))
       = decrypt lib e (Some (p0 @ colon # p1 @ colon # p2))"
proof -
  note nc = valid_hex_no_colon [OF v(1)] valid_hex_no_colon [OF v(2)] valid_hex_no_colon [OF v(3)]
  have s1: "split colon ((p0 @ g0) @ colon # (p1 @ g1) @ colon # (p2 @ g2))
      = [p0 @ g0, p1 @ g1, p2 @ g2]"
    using nc c by (simp add: split_append split_no_sep del: append_assoc)
  have s2: "split colon (p0 @ colon # p1 @ colon # p2) = [p0, p1, p2]"
    using nc by (simp add: split_append split_no_sep)
  have d: "hex_decode (p0 @ g0) = hex_decode p0" "hex_decode (p1 @ g1) = hex_decode p1"
    "hex_decode (p2 @ g2) = hex_decode p2"
    using v g by (simp_all add: hex_decode_append_valid)
  have dc: "decipher lib key iv tag (p2 @ g2) = decipher lib key iv tag p2" for key iv tag
    using g(4) d(3) by (simp add: decipher_def)
  show ?thesis
    by (cases "getEncryptionKey e")
      (simp_all add: decrypt_def falsy_def s1 s2 d dc Let_def cong: sum.case_cong
        del: append_assoc)
qed

lemma lone_surrogate_utf8: "utf8_encode [55296] = utf8_encode [65533]"
  by (simp add: is_high_def is_low_def)

subsection \<open>The fixtures\<close>

lemma sum_list_update_byte:
  "i < length xs \<Longrightarrow> sum_list (xs[i := b]) = sum_list xs - xs ! i + (b :: byte)"
proof (induction xs arbitrary: i)
  case Nil
  then show ?case by simp
next
  case (Cons x xs)
  then show ?case by (cases i) simp_all
qed

lemma sample_tag_length_ok: "tag_length_ok sample_gcm"
  by (simp add: tag_length_ok_def sample_gcm_def sample_auth_tag_def AUTH_TAG_LENGTH_def)

lemma xor_twice: "(x XOR c) XOR c = (x :: byte)"
  by (simp add: xor.assoc)

lemma sample_keystream_ok: "keystream_ok sample_gcm"
  by (simp add: keystream_ok_def sample_gcm_def sample_keystream_xor_def comp_def xor_twice)

lemma replicate_16: "replicate 16 x = [x, x, x, x, x, x, x, x, x, x, x, x, x, x, x, x]"
  by (simp add: numeral_eq_Suc)

lemma replicate_64_head: "replicate 64 x = x # x # replicate 62 x"
  by (simp add: numeral_eq_Suc)

lemma sample_tag_detects: "tag_detects sample_gcm key"
proof -
  have "sum_list (data[i := b]) \<noteq> sum_list data" if "i < length data" "b \<noteq> data ! i"
    for data :: buffer and i b
    using that by (simp add: sum_list_update_byte)
  then show ?thesis
    by (simp add: tag_detects_def sample_gcm_def sample_auth_tag_def)
qed

lemmas eval_simps = replicate_16
  js_def hex_value_def unhex_def hex_digit_def Let_def enc1_def enc2_def enc3_def enc4_def is_high_def
  is_low_def in_range_def second_lo_def second_hi_def emit_def replacement_def pair_cp_def
  colon_def falsy_def valid_hex_def valid_tag_length_def IV_LENGTH_def
  strip_sign_def strip_prefix_def is_white_space_def digit_value_def number_of_def
  parseInt_def fiveMinutes_def hmac_hex_def
  getEncryptionKey_def createCipheriv_def encrypt_def decipher_def decrypt_def
  verifyDeffatestWebhook_def
  sample_keystream_xor_def sample_auth_tag_def sample_gcm_def cipher_env_def sample_key_def
  sample_iv_def other_iv_def non_hex_key_env_def sample_parse_def known_hmac_def
  sample_platform_def sample_env_def unconfigured_env_def signed_request_def bare_request_def

lemma cipher_env_key: "getEncryptionKey cipher_env = Inr sample_key"
  by (simp add: eval_simps)

lemma sample_key_length: "length sample_key = 32"
  by (simp add: sample_key_def)

subsection \<open>The verifier after its first three checks\<close>

lemma verify_after_checks:
  assumes "x_deffatest_signature req = Some sig" "sig \<noteq> []"
    and "x_deffatest_timestamp req = Some ts" "ts \<noteq> []"
    and "parseInt ts = Some t" "\<bar>now - t\<bar> \<le> fiveMinutes"
    and "DEFFATEST_WEBHOOK_SECRET e = Some secret" "secret \<noteq> []"
  shows "verifyDeffatestWebhook lib e now req =
     (if hex_decode sig =
           hmac_sha256 lib (utf8_encode secret) (utf8_encode (ts @ JSON_stringify lib (body req)))
      then Next else Respond 401 AuthenticationError)"
  using assms
  by (simp add: verifyDeffatestWebhook_def falsy_def Let_def hmac_hex_def hex_decode_encode)

lemma parseInt_1000abc: "parseInt (js ''1000abc'') = Some 1000"
  by (simp add: eval_simps)

lemma parseInt_1000: "parseInt (js ''1000'') = Some 1000"
  by (simp add: eval_simps)

subsection \<open>Loading the key\<close>

text \<open>
  The only error of \<open>getEncryptionKey\<close> is the configuration error, raised exactly for a
  key that is absent, empty or not 64 characters long; a key of 64 hex digits loads to
  32 bytes.
\<close>

lemma getEncryptionKey_error:
  "getEncryptionKey e = Inl err \<Longrightarrow> err = ServerConfigurationError"
  by (auto simp: getEncryptionKey_def split: option.splits if_splits)

lemma getEncryptionKey_hex_key:
  assumes "ENCRYPTION_KEY e = Some k" "length k = 64" "valid_hex k"
  shows "getEncryptionKey e = Inr (hex_decode k) \<and> length (hex_decode k) = 32"
proof -
  have "k \<noteq> []" using assms(2) by auto
  then show ?thesis using assms by (simp add: getEncryptionKey_def length_hex_decode)
qed

lemma getEncryptionKey_error_iff:
  "getEncryptionKey e = Inl ServerConfigurationError
     \<longleftrightarrow> falsy (ENCRYPTION_KEY e) \<or> length (the (ENCRYPTION_KEY e)) \<noteq> 64"
  by (auto simp: getEncryptionKey_def falsy_def split: option.splits)

subsection \<open>One character of a stored secret replaced\<close>

lemma decipher_cong:
  assumes "length ct' = length ct" "hex_decode ct' = hex_decode ct"
  shows "decipher lib key iv tag ct' = decipher lib key iv tag ct"
  using assms by (simp add: decipher_def)

lemma flip_segment:
  assumes key: "getEncryptionKey e = Inr key" "length key = 32"
    and lib: "tag_length_ok lib" "tag_detects lib key"
    and iv: "length iv = IV_LENGTH" and s: "s \<noteq> []"
    and enc: "encrypt lib e iv (Some s) = Inr (Some c)"
    and sp: "split colon c = [p0, p1, p2]"
    and x: "unhex x \<noteq> None"
    and flip: "(i < length p1 \<and> y = p1 ! i \<and> c' = p0 @ colon # p1[i := x] @ colon # p2)
             \<or> (i < length p2 \<and> y = p2 ! i \<and> c' = p0 @ colon # p1 @ colon # p2[i := x])"
  shows "decrypt lib e (Some c') =
     (if unhex x = unhex y then decrypt lib e (Some c) else Inl AuthenticationError)"
proof -
  let ?ct = "keystream_xor lib key iv (utf8_encode s)"
  let ?tag = "auth_tag lib key iv ?ct"
  have ivn: "iv \<noteq> []" "length iv \<le> 128" using iv by (auto simp: IV_LENGTH_def)
  have tl: "\<And>d. length (auth_tag lib key iv d) = 16"
    using lib(1) by (simp add: tag_length_ok_def AUTH_TAG_LENGTH_def)
  have c: "c = hex_encode iv @ colon # hex_encode ?tag @ colon # hex_encode ?ct"
    using encrypt_value [OF key ivn s, of lib] enc by simp
  with sp have p: "p0 = hex_encode iv" "p1 = hex_encode ?tag" "p2 = hex_encode ?ct"
    by (simp_all add: split_triple)
  have d0: "decrypt lib e (Some c) =
      (case decipher lib key (hex_decode p0) (hex_decode p1) p2 of
         Inl err \<Rightarrow> Inl err | Inr z \<Rightarrow> Inr (Some z))"
    using ivn tl
    by (intro decrypt_triple [OF key sp]) (simp_all add: p hex_decode_encode valid_tag_length_def)
  obtain v where v: "unhex x = Some v" using x by auto
  from flip show ?thesis
  proof (elim disjE conjE)
    assume i: "i < length p1" and y: "y = p1 ! i"
      and c': "c' = p0 @ colon # p1[i := x] @ colon # p2"
    have sp': "split colon c' = [p0, p1[i := x], p2]"
      unfolding c' p
      by (simp add: split_append split_no_sep colon_notin_hex colon_notin_update [OF x])
    show ?thesis
    proof (cases "unhex x = unhex y")
      case True
      have same: "hex_decode (p1[i := x]) = hex_decode p1"
        using hex_decode_same [OF i [unfolded p] True [unfolded y p]]
        by (simp add: p hex_decode_encode)
      have "decrypt lib e (Some c') =
        (case decipher lib key (hex_decode p0) (hex_decode (p1[i := x])) p2 of
           Inl err \<Rightarrow> Inl err | Inr z \<Rightarrow> Inr (Some z))"
        using ivn tl
        by (intro decrypt_triple [OF key sp'])
          (simp_all add: same, simp_all add: p hex_decode_encode valid_tag_length_def)
      then show ?thesis using True d0 by (simp add: same)
    next
      case False
      obtain b where b: "b \<noteq> ?tag ! (i div 2)"
        "hex_decode (p1[i := x]) = ?tag[i div 2 := b]"
        using hex_decode_flip [OF i [unfolded p] v False [unfolded y p]] unfolding p by blast
      have j: "i div 2 < length ?tag" using i by (simp add: p length_hex_encode)
      have ne: "?tag[i div 2 := b] \<noteq> ?tag"
        using b(1) j by (metis nth_list_update_eq)
      have "decrypt lib e (Some c') =
        (case decipher lib key (hex_decode p0) (hex_decode (p1[i := x])) p2 of
           Inl err \<Rightarrow> Inl err | Inr z \<Rightarrow> Inr (Some z))"
        using ivn tl
        by (intro decrypt_triple [OF key sp'])
          (simp_all add: p(1) hex_decode_encode b(2) valid_tag_length_def)
      moreover have "decipher lib key (hex_decode p0) (hex_decode (p1[i := x])) p2
          = Inl AuthenticationError"
        using ne tl
        by (simp add: decipher_def Let_def b(2) p(1,3) hex_decode_encode length_hex_encode)
      ultimately show ?thesis using False by simp
    qed
  next
    assume i: "i < length p2" and y: "y = p2 ! i"
      and c': "c' = p0 @ colon # p1 @ colon # p2[i := x]"
    have sp': "split colon c' = [p0, p1, p2[i := x]]"
      unfolding c' p
      by (simp add: split_append split_no_sep colon_notin_hex colon_notin_update [OF x])
    have d1: "decrypt lib e (Some c') =
      (case decipher lib key (hex_decode p0) (hex_decode p1) (p2[i := x]) of
         Inl err \<Rightarrow> Inl err | Inr z \<Rightarrow> Inr (Some z))"
      using ivn tl
      by (intro decrypt_triple [OF key sp'])
        (simp_all add: p(1,2) hex_decode_encode valid_tag_length_def)
    show ?thesis
    proof (cases "unhex x = unhex y")
      case True
      have same: "hex_decode (p2[i := x]) = hex_decode p2"
        using hex_decode_same [OF i [unfolded p] True [unfolded y p]]
        by (simp add: p hex_decode_encode)
      have "decipher lib key (hex_decode p0) (hex_decode p1) (p2[i := x])
          = decipher lib key (hex_decode p0) (hex_decode p1) p2"
        by (rule decipher_cong) (simp_all add: same)
      then show ?thesis using True d0 d1 by simp
    next
      case False
      obtain b where b: "b \<noteq> ?ct ! (i div 2)"
        "hex_decode (p2[i := x]) = ?ct[i div 2 := b]"
        using hex_decode_flip [OF i [unfolded p] v False [unfolded y p]] unfolding p by blast
      have j: "i div 2 < length ?ct" using i by (simp add: p length_hex_encode)
      have ne: "auth_tag lib key iv (?ct[i div 2 := b]) \<noteq> ?tag"
        using lib(2) j b(1) unfolding tag_detects_def by blast
      have "decipher lib key (hex_decode p0) (hex_decode p1) (p2[i := x])
          = Inl AuthenticationError"
        using ne [symmetric] tl
        by (simp add: decipher_def Let_def b(2) p(1,2) hex_decode_encode)
           (simp add: p(3) length_hex_encode)
      then show ?thesis using False d1 by simp
    qed
  qed
qed

lemma update_in_second:
  assumes "i < length p1"
  shows "(p0 @ colon # p1 @ colon # p2)[length p0 + Suc i := x] = p0 @ colon # p1[i := x] @ colon # p2"
    and "(p0 @ colon # p1 @ colon # p2) ! (length p0 + Suc i) = p1 ! i"
  using assms by (simp_all add: list_update_append nth_append)

lemma update_in_third:
  shows "(p0 @ colon # p1 @ colon # p2)[length p0 + Suc (length p1 + Suc i) := x]
      = p0 @ colon # p1 @ colon # p2[i := x]"
    and "(p0 @ colon # p1 @ colon # p2) ! (length p0 + Suc (length p1 + Suc i)) = p2 ! i"
  by (simp_all add: list_update_append nth_append)

section \<open>The claims\<close>

subsection \<open>The webhook verifier\<close>

text \<open>
  C1 (as amended). For a request that passes the presence, freshness and secret checks,
  the verifier calls \<open>next()\<close> exactly when the signature header hex-decodes to the bytes
  of HMAC-SHA256 under the secret of the timestamp header followed by
  \<open>JSON.stringify(req.body)\<close>, the parsed body serialized again; otherwise it answers
  401 with an authentication error. The bytes that the sender put on the wire do not
  enter the computation.
\<close>

theorem verifier_accepts_iff:
  assumes "x_deffatest_signature req = Some sig" "sig \<noteq> []"
    and "x_deffatest_timestamp req = Some ts" "ts \<noteq> []"
    and "parseInt ts = Some t" "\<bar>now - t\<bar> \<le> fiveMinutes"
    and "DEFFATEST_WEBHOOK_SECRET e = Some secret" "secret \<noteq> []"
  shows "verifyDeffatestWebhook lib e now req =
     (if hex_decode sig =
           hmac_sha256 lib (utf8_encode secret) (utf8_encode (ts @ JSON_stringify lib (body req)))
      then Next else Respond 401 AuthenticationError)"
  using assms by (rule verify_after_checks)

text \<open>
  The spec's example: secret \<open>whsec\<close>, timestamp \<open>1000\<close>, body \<open>{}\<close>, verified one
  millisecond later with the signature \<open>HMAC-SHA256("whsec", "1000{}")\<close>.
\<close>

theorem verifier_accepts_iff_witness:
  "verifyDeffatestWebhook sample_platform sample_env 1001
     (signed_request ''d1e997f66f49332d1ebfca39b94dfaf55d263695680111dfa07613d599f614cc'' ''1000'')
   = Next"
  using verifier_accepts_iff [of
      "signed_request ''d1e997f66f49332d1ebfca39b94dfaf55d263695680111dfa07613d599f614cc'' ''1000''"
      "js ''d1e997f66f49332d1ebfca39b94dfaf55d263695680111dfa07613d599f614cc''"
      "js ''1000''" 1000 1001 sample_env "js ''whsec''" sample_platform]
  by (simp add: eval_simps)

text \<open>
  C1 as stated fails. The sender puts the body \<open>{ }\<close> on the wire and signs
  \<open>"1000" + "{ }"\<close>. The body parser hands the verifier the empty object, which
  \<open>JSON.stringify\<close> writes as \<open>{}\<close>: the signature over the bytes that were sent is
  refused.
\<close>

theorem signature_over_raw_body_refused:
  "sample_parse (js ''{ }'') = Some EmptyObject
   \<and> hex_decode (js ''fd255100305c54818b5b64240f233d8ecefac68abed62d3e4087470ec4d1ed94'')
       = hmac_sha256 sample_platform (utf8_encode (js ''whsec'')) (utf8_encode (js ''1000'' @ js ''{ }''))
   \<and> verifyDeffatestWebhook sample_platform sample_env 1001
         (signed_request ''fd255100305c54818b5b64240f233d8ecefac68abed62d3e4087470ec4d1ed94'' ''1000'')
       = Respond 401 AuthenticationError"
  by (simp add: eval_simps)

text \<open>
  C2 (as amended). With the webhook secret unset (absent or empty) the verifier never
  calls \<open>next()\<close>, and its answer to every request is fixed by the two checks that run
  before the secret is read: a request with a missing or empty header is answered with
  401 and the missing-credentials error; one with both headers whose timestamp
  \<open>parseInt\<close> reads as \<open>NaN\<close>, or as a value more than five minutes from the clock, with
  401 and the stale-request error; and one with both headers and a fresh timestamp with
  500 and the server configuration error, whatever its signature.
\<close>

theorem unset_secret_never_accepts:
  assumes "falsy (DEFFATEST_WEBHOOK_SECRET e)"
  shows "verifyDeffatestWebhook lib e now req \<noteq> Next
       \<and> verifyDeffatestWebhook lib e now req \<in>
           {Respond 401 MissingCredentialsError, Respond 401 StaleRequestError,
            Respond 500 ServerConfigurationError}
       \<and> (falsy (x_deffatest_signature req) \<or> falsy (x_deffatest_timestamp req)
          \<longrightarrow> verifyDeffatestWebhook lib e now req = Respond 401 MissingCredentialsError)
       \<and> (\<not> falsy (x_deffatest_signature req) \<and> \<not> falsy (x_deffatest_timestamp req)
            \<and> parseInt (the (x_deffatest_timestamp req)) = None
          \<longrightarrow> verifyDeffatestWebhook lib e now req = Respond 401 StaleRequestError)
       \<and> (\<not> falsy (x_deffatest_signature req) \<and> \<not> falsy (x_deffatest_timestamp req)
            \<and> (\<exists>t. parseInt (the (x_deffatest_timestamp req)) = Some t
                     \<and> \<bar>now - t\<bar> > fiveMinutes)
          \<longrightarrow> verifyDeffatestWebhook lib e now req = Respond 401 StaleRequestError)
       \<and> (\<not> falsy (x_deffatest_signature req) \<and> \<not> falsy (x_deffatest_timestamp req)
            \<and> (\<exists>t. parseInt (the (x_deffatest_timestamp req)) = Some t
                     \<and> \<bar>now - t\<bar> \<le> fiveMinutes)
          \<longrightarrow> verifyDeffatestWebhook lib e now req = Respond 500 ServerConfigurationError)"
  using assms
  by (auto simp: verifyDeffatestWebhook_def Let_def split: option.splits)

theorem unset_secret_never_accepts_witness:
  "verifyDeffatestWebhook sample_platform unconfigured_env 1001
     (signed_request ''d1e997f66f49332d1ebfca39b94dfaf55d263695680111dfa07613d599f614cc'' ''1000'')
   = Respond 500 ServerConfigurationError"
  using unset_secret_never_accepts [of unconfigured_env sample_platform 1001
      "signed_request ''d1e997f66f49332d1ebfca39b94dfaf55d263695680111dfa07613d599f614cc'' ''1000''"]
  by (simp add: eval_simps)

text \<open>
  C2 as stated fails: with the secret unset, a request without headers is answered with
  401 and a missing-credentials error, and a request six minutes old with 401 and a
  stale-request error.
\<close>

theorem unset_secret_other_errors:
  "verifyDeffatestWebhook sample_platform unconfigured_env 1001 bare_request
     = Respond 401 MissingCredentialsError
   \<and> verifyDeffatestWebhook sample_platform unconfigured_env (1000 + 6 * 60 * 1000)
       (signed_request ''d1e997f66f49332d1ebfca39b94dfaf55d263695680111dfa07613d599f614cc'' ''1000'')
     = Respond 401 StaleRequestError"
  by (simp add: eval_simps)

text \<open>
  C6. With both headers present, the verifier answers with the stale-request error
  exactly when \<open>parseInt\<close> of the timestamp header is \<open>NaN\<close> or the clock and the parsed
  value differ by more than five minutes. In particular a request whose timestamp parses
  to \<open>t\<close> is stale at \<open>t\<close> plus six minutes and passes the check at \<open>t + 1\<close>.
\<close>

theorem freshness_check:
  assumes "x_deffatest_signature req = Some sig" "sig \<noteq> []"
    and "x_deffatest_timestamp req = Some ts" "ts \<noteq> []"
  shows "(verifyDeffatestWebhook lib e now req = Respond 401 StaleRequestError
            \<longleftrightarrow> (case parseInt ts of None \<Rightarrow> True | Some t \<Rightarrow> \<bar>now - t\<bar> > 5 * 60 * 1000))
       \<and> (\<forall>t. parseInt ts = Some t \<longrightarrow>
              verifyDeffatestWebhook lib e (t + 6 * 60 * 1000) req = Respond 401 StaleRequestError
            \<and> verifyDeffatestWebhook lib e (t + 1) req \<noteq> Respond 401 StaleRequestError)"
  using assms
  by (auto simp: verifyDeffatestWebhook_def falsy_def Let_def fiveMinutes_def split: option.splits)

theorem freshness_check_witness:
  "verifyDeffatestWebhook sample_platform sample_env (1000 + 6 * 60 * 1000)
       (signed_request ''d1e997f66f49332d1ebfca39b94dfaf55d263695680111dfa07613d599f614cc'' ''1000'')
     = Respond 401 StaleRequestError
   \<and> verifyDeffatestWebhook sample_platform sample_env (1000 + 1)
       (signed_request ''d1e997f66f49332d1ebfca39b94dfaf55d263695680111dfa07613d599f614cc'' ''1000'')
     \<noteq> Respond 401 StaleRequestError"
  using freshness_check [of
      "signed_request ''d1e997f66f49332d1ebfca39b94dfaf55d263695680111dfa07613d599f614cc'' ''1000''"
      "js ''d1e997f66f49332d1ebfca39b94dfaf55d263695680111dfa07613d599f614cc''"
      "js ''1000''" sample_platform sample_env 1001] parseInt_1000
  by (simp add: signed_request_def js_def)

text \<open>
  C9. The timestamp header \<open>1000abc\<close> is not a decimal integer, yet \<open>parseInt\<close> reads it
  as 1000, so within five minutes of 1000 the freshness check lets it through; and since
  the HMAC is computed over the header as received, a request signed over
  \<open>"1000abc" + JSON.stringify(body)\<close> is accepted.
\<close>

theorem lenient_timestamp_accepted:
  assumes "DEFFATEST_WEBHOOK_SECRET e = Some secret" "secret \<noteq> []"
    and "hmac_sha256 lib (utf8_encode secret) (utf8_encode (js ''1000abc'' @ JSON_stringify lib b)) \<noteq> []"
    and "\<bar>now - 1000\<bar> \<le> fiveMinutes"
  shows "parseInt (js ''1000abc'') = Some 1000
       \<and> verifyDeffatestWebhook lib e now
            \<lparr>x_deffatest_signature = Some (hmac_hex lib secret (js ''1000abc'' @ JSON_stringify lib b)),
             x_deffatest_timestamp = Some (js ''1000abc''),
             body = b\<rparr> = Next"
proof -
  let ?sig = "hmac_hex lib secret (js ''1000abc'' @ JSON_stringify lib b)"
  have ne: "?sig \<noteq> []"
    using assms(3) unfolding hmac_hex_def
    by (cases "hmac_sha256 lib (utf8_encode secret) (utf8_encode (js ''1000abc'' @ JSON_stringify lib b))")
      simp_all
  have ts: "js ''1000abc'' \<noteq> []" by (simp add: js_def)
  have d: "hex_decode ?sig =
      hmac_sha256 lib (utf8_encode secret) (utf8_encode (js ''1000abc'' @ JSON_stringify lib b))"
    by (simp add: hmac_hex_def hex_decode_encode)
  show ?thesis
    using verify_after_checks [of "\<lparr>x_deffatest_signature = Some ?sig,
             x_deffatest_timestamp = Some (js ''1000abc''), body = b\<rparr>" ?sig "js ''1000abc''"
             1000 now e secret lib]
      ne ts d parseInt_1000abc assms
    by simp
qed

theorem lenient_timestamp_accepted_witness:
  "parseInt (js ''1000abc'') = Some 1000
   \<and> verifyDeffatestWebhook sample_platform sample_env 1001
       (signed_request ''83eb5c24ae73f4d45bee5dda82abfefb7e7f291fbd7d0f39e8e88dbea44aa430'' ''1000abc'')
     = Next"
  using lenient_timestamp_accepted [of sample_env "js ''whsec''" sample_platform EmptyObject 1001]
  by (simp add: eval_simps)

subsection \<open>The secret cipher\<close>

text \<open>
  C3 (as amended). Under a key that loads to 32 bytes, for every non-empty string in
  which every surrogate is part of a high-low pair, \<open>decrypt(encrypt(s))\<close> returns
  \<open>s\<close>.
\<close>

theorem decrypt_encrypt_well_formed:
  assumes "getEncryptionKey e = Inr key" "length key = 32"
    and "keystream_ok lib" "tag_length_ok lib"
    and "length iv = IV_LENGTH" "s \<noteq> []" "well_formed s"
  shows "\<exists>c. encrypt lib e iv (Some s) = Inr (Some c) \<and> decrypt lib e (Some c) = Inr (Some s)"
proof -
  let ?ct = "keystream_xor lib key iv (utf8_encode s)"
  let ?tag = "auth_tag lib key iv ?ct"
  let ?c = "hex_encode iv @ colon # hex_encode ?tag @ colon # hex_encode ?ct"
  have iv: "iv \<noteq> []" "length iv \<le> 128" using assms(5) by (auto simp: IV_LENGTH_def)
  have tag: "length ?tag = 16" using assms(4) by (simp add: tag_length_ok_def AUTH_TAG_LENGTH_def)
  have enc: "encrypt lib e iv (Some s) = Inr (Some ?c)"
    using assms(1,2) iv assms(6) by (rule encrypt_value)
  have sp: "split colon ?c = [hex_encode iv, hex_encode ?tag, hex_encode ?ct]"
    by (rule split_triple)
  have dec: "decrypt lib e (Some ?c) =
     (case decipher lib key iv ?tag (hex_encode ?ct) of Inl err \<Rightarrow> Inl err | Inr x \<Rightarrow> Inr (Some x))"
    using decrypt_triple [OF assms(1,2) sp, of lib] iv tag
    by (simp add: hex_decode_encode valid_tag_length_def)
  have inv: "keystream_xor lib key iv ?ct = utf8_encode s"
    using assms(3) by (simp add: keystream_ok_def)
  have "decipher lib key iv ?tag (hex_encode ?ct) = Inr s"
    by (simp add: decipher_def Let_def length_hex_encode hex_decode_encode inv
        utf8_roundtrip [OF assms(7)])
  then show ?thesis using enc dec by simp
qed

text \<open>
  A string with characters of one, two and three bytes and a surrogate pair:
  \<open>x\<close>, U+00E9, U+20AC and U+1F600.
\<close>

theorem decrypt_encrypt_well_formed_witness:
  "encrypt sample_gcm cipher_env sample_iv (Some [120, 233, 8364, 55357, 56832])
     = Inr (Some (js ''a0a1a2a3a4a5a6a7a8a9aaabacadaeaf:83838383838383838383838383838383:10abc18aeac498f7f0e8''))
   \<and> decrypt sample_gcm cipher_env
       (Some (js ''a0a1a2a3a4a5a6a7a8a9aaabacadaeaf:83838383838383838383838383838383:10abc18aeac498f7f0e8''))
     = Inr (Some [120, 233, 8364, 55357, 56832])"
  using decrypt_encrypt_well_formed [OF cipher_env_key sample_key_length sample_keystream_ok
      sample_tag_length_ok, of sample_iv "[120, 233, 8364, 55357, 56832]"]
  by (simp add: eval_simps)

text \<open>
  C3 as stated fails: a string that is one unpaired surrogate, U+D800, is encrypted as
  the UTF-8 of U+FFFD, and \<open>decrypt\<close> returns U+FFFD. Since the two strings have the
  same bytes, \<open>encrypt\<close> returns the same for both under any cipher.
\<close>

theorem lone_surrogate_not_restored:
  "encrypt sample_gcm cipher_env sample_iv (Some [55296])
     = Inr (Some (js ''a0a1a2a3a4a5a6a7a8a9aaabacadaeaf:9b9b9b9b9b9b9b9b9b9b9b9b9b9b9b9b:87d7d5''))
   \<and> decrypt sample_gcm cipher_env
       (Some (js ''a0a1a2a3a4a5a6a7a8a9aaabacadaeaf:9b9b9b9b9b9b9b9b9b9b9b9b9b9b9b9b:87d7d5''))
     = Inr (Some [65533])
   \<and> decrypt sample_gcm cipher_env
       (Some (js ''a0a1a2a3a4a5a6a7a8a9aaabacadaeaf:9b9b9b9b9b9b9b9b9b9b9b9b9b9b9b9b:87d7d5''))
     \<noteq> Inr (Some [55296])
   \<and> utf8_encode [55296] = utf8_encode [65533]"
  by (simp add: eval_simps)

text \<open>
  C4 (as amended). \<open>decrypt\<close> raises the format error exactly when its input is a
  non-empty string, the key loads, and the string does not split at \<open>:\<close> into exactly
  three segments. Whether a segment is valid hex is not checked.
\<close>

theorem decrypt_FormatError_iff:
  "decrypt lib e d = Inl FormatError \<longleftrightarrow>
     (\<not> falsy d \<and> (\<exists>key. getEncryptionKey e = Inr key) \<and> length (split colon (the d)) \<noteq> 3)"
proof (cases "falsy d")
  case True
  then show ?thesis by (simp add: decrypt_def)
next
  case nf: False
  show ?thesis
  proof (cases "getEncryptionKey e")
    case (Inl err)
    then have "err = ServerConfigurationError" by (rule getEncryptionKey_error)
    with Inl nf show ?thesis by (simp add: decrypt_def)
  next
    case (Inr key)
    show ?thesis
    proof (cases "length (split colon (the d)) = 3")
      case True
      have "decipher lib key iv tag ct \<noteq> Inl FormatError" for iv tag ct
        by (simp add: decipher_def Let_def)
      with nf Inr True show ?thesis
        by (auto simp: decrypt_def Let_def createCipheriv_def split: sum.splits)
    next
      case False
      with nf Inr show ?thesis
        by (simp add: decrypt_def Let_def)
    qed
  qed
qed

theorem decrypt_FormatError_iff_witness:
  "decrypt sample_gcm cipher_env (Some (js ''a0a1a2a3:1007100a4559'')) = Inl FormatError"
  using decrypt_FormatError_iff [of sample_gcm cipher_env "Some (js ''a0a1a2a3:1007100a4559'')"]
  by (simp add: eval_simps)

text \<open>
  C4 as stated fails. Each segment below ends in characters that are not hex digits;
  the hex decoder stops in front of them, and \<open>decrypt\<close> returns the plaintext (as
  it does under any cipher, by \<open>decrypt_ignores_garbage\<close>). With three segments
  without any hex digit the error is the cipher's refusal of an empty initialization
  vector, not the format error.
\<close>

theorem non_hex_segments_decrypted:
  "split colon (js ''a0a1a2a3a4a5a6a7a8a9aaabacadaeafzz:37373737373737373737373737373737xy:1007100a4559..'')
     = [js ''a0a1a2a3a4a5a6a7a8a9aaabacadaeafzz'', js ''37373737373737373737373737373737xy'',
        js ''1007100a4559..'']
   \<and> \<not> valid_hex (js ''a0a1a2a3a4a5a6a7a8a9aaabacadaeafzz'')
   \<and> \<not> valid_hex (js ''37373737373737373737373737373737xy'')
   \<and> \<not> valid_hex (js ''1007100a4559..'')
   \<and> decrypt sample_gcm cipher_env
       (Some (js ''a0a1a2a3a4a5a6a7a8a9aaabacadaeafzz:37373737373737373737373737373737xy:1007100a4559..''))
     = Inr (Some (js ''xoxb-1''))
   \<and> decrypt sample_gcm cipher_env (Some (js ''zz:zz:zz'')) = Inl InvalidIV"
  by (simp add: eval_simps)

text \<open>
  C5 (as amended). Take what \<open>encrypt\<close> returned for a non-empty string, under a key
  that loads to 32 bytes and whose tag detects a changed ciphertext byte, and replace
  one character of the tag segment or of the ciphertext segment by a character that the
  decoder reads as a hex digit. If the digit has another value than the one replaced,
  \<open>decrypt\<close> raises the authentication error, which is not the format error. If it has
  the same value (the other case of a letter), the decoded bytes are the same and
  \<open>decrypt\<close> returns what it returns for the string as stored. Either way no other
  plaintext is returned.
\<close>

theorem decrypt_detects_flip:
  assumes key: "getEncryptionKey e = Inr key" "length key = 32"
    and lib: "tag_length_ok lib" "tag_detects lib key"
    and iv: "length iv = IV_LENGTH" and s: "s \<noteq> []"
    and enc: "encrypt lib e iv (Some s) = Inr (Some c)"
    and sp: "split colon c = [p0, p1, p2]"
    and n: "(length p0 < n \<and> n \<le> length p0 + length p1)
          \<or> (length p0 + length p1 + 1 < n \<and> n < length c)"
    and x: "unhex x \<noteq> None"
  shows "(unhex x \<noteq> unhex (c ! n) \<longrightarrow>
            decrypt lib e (Some (c[n := x])) = Inl AuthenticationError
          \<and> decrypt lib e (Some (c[n := x])) \<noteq> Inl FormatError)
       \<and> (unhex x = unhex (c ! n) \<longrightarrow>
            decrypt lib e (Some (c[n := x])) = decrypt lib e (Some c))"
proof -
  have ivn: "iv \<noteq> []" "length iv \<le> 128" using iv by (auto simp: IV_LENGTH_def)
  have "c = hex_encode iv @ colon #
      hex_encode (auth_tag lib key iv (keystream_xor lib key iv (utf8_encode s))) @ colon #
      hex_encode (keystream_xor lib key iv (utf8_encode s))"
    using encrypt_value [OF key ivn s, of lib] enc by simp
  with sp have c: "c = p0 @ colon # p1 @ colon # p2"
    by (simp add: split_triple)
  from n consider i where "i < length p1" "n = length p0 + Suc i"
    | i where "i < length p2" "n = length p0 + Suc (length p1 + Suc i)"
  proof (elim disjE conjE)
    assume "length p0 < n" "n \<le> length p0 + length p1"
    then have "n - length p0 - 1 < length p1" "n = length p0 + Suc (n - length p0 - 1)"
      by linarith+
    then show ?thesis using that(1) by blast
  next
    assume a: "length p0 + length p1 + 1 < n" "n < length c"
    then have "n - length p0 - length p1 - 2 < length p2"
      "n = length p0 + Suc (length p1 + Suc (n - length p0 - length p1 - 2))"
      unfolding c by (simp, linarith)
    then show ?thesis using that(2) by blast
  qed
  then have "decrypt lib e (Some (c[n := x])) =
     (if unhex x = unhex (c ! n) then decrypt lib e (Some c) else Inl AuthenticationError)"
  proof cases
    case 1
    have u: "c[n := x] = p0 @ colon # p1[i := x] @ colon # p2" "c ! n = p1 ! i"
      unfolding c 1(2) using update_in_second [OF 1(1)] by simp_all
    show ?thesis
      using flip_segment [OF key lib iv s enc sp x, of i "c ! n" "c[n := x]"] 1(1) u
      by simp
  next
    case 2
    have u: "c[n := x] = p0 @ colon # p1 @ colon # p2[i := x]" "c ! n = p2 ! i"
      unfolding c 2(2) using update_in_third by simp_all
    show ?thesis
      using flip_segment [OF key lib iv s enc sp x, of i "c ! n" "c[n := x]"] 2(1) u
      by simp
  qed
  then show ?thesis by simp
qed

text \<open>The last digit of the tag changed from 7 to 8.\<close>

theorem decrypt_detects_flip_witness:
  "decrypt sample_gcm cipher_env
     (Some (js ''a0a1a2a3a4a5a6a7a8a9aaabacadaeaf:37373737373737373737373737373738:1007100a4559''))
   = Inl AuthenticationError"
  using decrypt_detects_flip [OF cipher_env_key sample_key_length sample_tag_length_ok
      sample_tag_detects, of sample_iv "js ''xoxb-1''"
      "js ''a0a1a2a3a4a5a6a7a8a9aaabacadaeaf:37373737373737373737373737373737:1007100a4559''"
      "js ''a0a1a2a3a4a5a6a7a8a9aaabacadaeaf''" "js ''37373737373737373737373737373737''"
      "js ''1007100a4559''" 64 56]
  by (simp add: eval_simps)

text \<open>
  C5 as stated fails. In the string that \<open>encrypt\<close> returned, the character at index 73,
  the \<open>a\<close> of the ciphertext segment, is replaced by \<open>A\<close>: one hex character of the
  ciphertext has changed, the decoded bytes have not, and \<open>decrypt\<close> returns the
  plaintext and raises no authentication error. By \<open>flip_segment\<close> this is so under any
  cipher.
\<close>

theorem case_flip_accepted:
  "encrypt sample_gcm cipher_env sample_iv (Some (js ''xoxb-1''))
     = Inr (Some (js ''a0a1a2a3a4a5a6a7a8a9aaabacadaeaf:37373737373737373737373737373737:1007100a4559''))
   \<and> (js ''a0a1a2a3a4a5a6a7a8a9aaabacadaeaf:37373737373737373737373737373737:1007100a4559'')
         [73 := 65]
     = js ''a0a1a2a3a4a5a6a7a8a9aaabacadaeaf:37373737373737373737373737373737:1007100A4559''
   \<and> decrypt sample_gcm cipher_env
       (Some (js ''a0a1a2a3a4a5a6a7a8a9aaabacadaeaf:37373737373737373737373737373737:1007100A4559''))
     = Inr (Some (js ''xoxb-1''))
   \<and> decrypt sample_gcm cipher_env
       (Some (js ''a0a1a2a3a4a5a6a7a8a9aaabacadaeaf:37373737373737373737373737373737:1007100A4559''))
     \<noteq> Inl AuthenticationError"
  by (simp add: eval_simps)

text \<open>
  C7 fails on the code. A key of 64 characters that are not hex digits passes the check
  of \<open>getEncryptionKey\<close>, which returns an empty buffer and raises no configuration
  error; \<open>encrypt\<close> then fails inside the cipher, on the key's length.
\<close>

theorem non_hex_key_loads:
  "getEncryptionKey non_hex_key_env = Inr []
   \<and> encrypt sample_gcm non_hex_key_env sample_iv (Some (js ''xoxb-1'')) = Inl InvalidKeyLength"
  by (simp add: eval_simps replicate_64_head)

text \<open>
  C8. Under a key that loads to 32 bytes, two \<open>encrypt\<close> calls on the same non-empty
  string whose 16-byte initialization vectors differ return different strings: their
  first segments, the hex of the two vectors, differ.
\<close>

theorem encrypt_fresh_iv_distinct:
  assumes "getEncryptionKey e = Inr key" "length key = 32"
    and "s \<noteq> []" "length iv1 = IV_LENGTH" "length iv2 = IV_LENGTH" "iv1 \<noteq> iv2"
  shows "\<exists>c1 c2. encrypt lib e iv1 (Some s) = Inr (Some c1)
           \<and> encrypt lib e iv2 (Some s) = Inr (Some c2)
           \<and> c1 \<noteq> c2
           \<and> hd (split colon c1) = hex_encode iv1
           \<and> hd (split colon c2) = hex_encode iv2
           \<and> hd (split colon c1) \<noteq> hd (split colon c2)"
proof -
  have iv: "iv1 \<noteq> []" "iv2 \<noteq> []" "length iv1 \<le> 128" "length iv2 \<le> 128"
    using assms(4,5) by (auto simp: IV_LENGTH_def)
  note e1 = encrypt_value [OF assms(1,2) iv(1,3) assms(3), of lib]
  note e2 = encrypt_value [OF assms(1,2) iv(2,4) assms(3), of lib]
  have h: "hex_encode iv1 \<noteq> hex_encode iv2"
    using assms(6) hex_encode_inj by blast
  let ?c1 = "hex_encode iv1 @ colon #
      hex_encode (auth_tag lib key iv1 (keystream_xor lib key iv1 (utf8_encode s))) @ colon #
      hex_encode (keystream_xor lib key iv1 (utf8_encode s))"
  let ?c2 = "hex_encode iv2 @ colon #
      hex_encode (auth_tag lib key iv2 (keystream_xor lib key iv2 (utf8_encode s))) @ colon #
      hex_encode (keystream_xor lib key iv2 (utf8_encode s))"
  have s1: "hd (split colon ?c1) = hex_encode iv1" by (simp add: split_append colon_notin_hex)
  have s2: "hd (split colon ?c2) = hex_encode iv2" by (simp add: split_append colon_notin_hex)
  have "?c1 \<noteq> ?c2" using h s1 s2 by metis
  then show ?thesis
    unfolding e1 e2 using h s1 s2 by simp
qed

theorem encrypt_fresh_iv_distinct_witness:
  "encrypt sample_gcm cipher_env sample_iv (Some (js ''xoxb-1''))
     = Inr (Some (js ''a0a1a2a3a4a5a6a7a8a9aaabacadaeaf:37373737373737373737373737373737:1007100a4559''))
   \<and> encrypt sample_gcm cipher_env other_iv (Some (js ''xoxb-1''))
     = Inr (Some (js ''b0b1b2b3b4b5b6b7b8b9babbbcbdbec8:50505050505050505050505050505050:091e09135c40''))"
  using encrypt_fresh_iv_distinct [OF cipher_env_key sample_key_length, of "js ''xoxb-1''"
      sample_iv other_iv sample_gcm]
  by (simp add: eval_simps)

text \<open>
  C10. Under a key that loads to 32 bytes, with a 16-byte initialization vector and a
  16-byte tag, what \<open>encrypt\<close> returns for a non-empty string splits at \<open>:\<close> into exactly
  three segments, each valid hex, the first and the second of 32 characters; \<open>decrypt\<close>
  of it does not raise the format error.
\<close>

theorem encrypt_output_format:
  assumes "getEncryptionKey e = Inr key" "length key = 32"
    and "tag_length_ok lib" "length iv = IV_LENGTH" "s \<noteq> []"
  shows "\<exists>c p0 p1 p2. encrypt lib e iv (Some s) = Inr (Some c)
           \<and> split colon c = [p0, p1, p2]
           \<and> valid_hex p0 \<and> valid_hex p1 \<and> valid_hex p2
           \<and> length p0 = 32 \<and> length p1 = 32
           \<and> decrypt lib e (Some c) \<noteq> Inl FormatError"
proof -
  let ?ct = "keystream_xor lib key iv (utf8_encode s)"
  let ?tag = "auth_tag lib key iv ?ct"
  let ?c = "hex_encode iv @ colon # hex_encode ?tag @ colon # hex_encode ?ct"
  have iv: "iv \<noteq> []" "length iv \<le> 128" using assms(4) by (auto simp: IV_LENGTH_def)
  have tag: "length ?tag = 16" using assms(3) by (simp add: tag_length_ok_def AUTH_TAG_LENGTH_def)
  have enc: "encrypt lib e iv (Some s) = Inr (Some ?c)"
    using assms(1,2) iv assms(5) by (rule encrypt_value)
  have sp: "split colon ?c = [hex_encode iv, hex_encode ?tag, hex_encode ?ct]"
    by (rule split_triple)
  have dec: "decrypt lib e (Some ?c) =
     (case decipher lib key iv ?tag (hex_encode ?ct) of Inl err \<Rightarrow> Inl err | Inr x \<Rightarrow> Inr (Some x))"
    using decrypt_triple [OF assms(1,2) sp, of lib] iv tag
    by (simp add: hex_decode_encode valid_tag_length_def)
  have "decipher lib key iv ?tag (hex_encode ?ct) \<noteq> Inl FormatError"
    by (simp add: decipher_def Let_def length_hex_encode)
  then have nf: "decrypt lib e (Some ?c) \<noteq> Inl FormatError"
    unfolding dec by (cases "decipher lib key iv ?tag (hex_encode ?ct)") auto
  show ?thesis
    using enc sp nf assms(4) tag
    by (simp add: valid_hex_encode length_hex_encode IV_LENGTH_def)
qed

theorem encrypt_output_format_witness:
  "encrypt sample_gcm cipher_env sample_iv (Some (js ''xoxb-1''))
     = Inr (Some (js ''a0a1a2a3a4a5a6a7a8a9aaabacadaeaf:37373737373737373737373737373737:1007100a4559''))
   \<and> split colon (js ''a0a1a2a3a4a5a6a7a8a9aaabacadaeaf:37373737373737373737373737373737:1007100a4559'')
     = [js ''a0a1a2a3a4a5a6a7a8a9aaabacadaeaf'', js ''37373737373737373737373737373737'',
        js ''1007100a4559'']
   \<and> valid_hex (js ''a0a1a2a3a4a5a6a7a8a9aaabacadaeaf'')
   \<and> valid_hex (js ''37373737373737373737373737373737'')
   \<and> valid_hex (js ''1007100a4559'')"
  using encrypt_output_format [OF cipher_env_key sample_key_length sample_tag_length_ok,
      of sample_iv "js ''xoxb-1''"]
  by (simp add: eval_simps)

end
